theory Spec2Isabelle
  imports Main "HOL-Library.Multiset" "HOL-Library.Sublist"
begin

section \<open>Task manager: the REST service and the React client\<close>

text \<open>
  The development embeds
  \<^item> the Express handlers of the task service (\<open>server.js\<close>, the second document of
    \<open>src/Frontend/src/App copy.jsx\<close>, from line 296 on);
  \<^item> the reconciliation functions of the React client (\<open>src/unnamed/part_000\<close>);
  \<^item> the search predicate of the earlier, purely local client (the first document of
    \<open>src/Frontend/src/App copy.jsx\<close>).

  The document store behind the service (Mongoose, MongoDB) is not part of the
  repository. It is modelled as follows.
  \<^item> The collection is the list of its documents in insertion order; a scan returns
    them in that order, and an update in place keeps a document's position.
  \<^item> A request body is a JSON object: each field is absent or any JSON value. Mongoose
    casts a value written to a Boolean path; \<open>null\<close> is kept as it is, so \<open>completed\<close>
    and \<open>important\<close> of a stored document are \<open>true\<close>, \<open>false\<close> or \<open>null\<close>.
  \<^item> \<open>sort(spec)\<close> is a stable sort by the path and direction of \<open>spec\<close>.
  \<^item> What the source leaves to the driver and the database is a parameter, the record
    \<open>engine\<close>: the cast of a path parameter to an object id, the regular expressions
    beyond a small fragment whose meaning is fixed below, and whether the store answers
    at all.
  \<^item> Clock reads (\<open>Date.now()\<close>) and the identifier of a new document are arguments of
    the handlers. Query parameters are optional strings.

  Characters are the 8-bit characters of HOL; whitespace and letter case follow
  JavaScript on that range.
\<close>

subsection \<open>Strings: \<open>trim\<close>, \<open>toLowerCase\<close>, \<open>includes\<close> of JavaScript\<close>

definition is_space :: "char \<Rightarrow> bool" where
  "is_space c = ((of_char c :: nat) \<in> {9, 10, 11, 12, 13, 32, 160})"

definition trim :: "string \<Rightarrow> string" where
  "trim s = rev (dropWhile is_space (rev (dropWhile is_space s)))"

definition lower_char :: "char \<Rightarrow> char" where
  "lower_char c =
     (let n = (of_char c :: nat)
      in if (65 \<le> n \<and> n \<le> 90) \<or> (192 \<le> n \<and> n \<le> 222 \<and> n \<noteq> 215)
         then char_of (n + 32) else c)"

definition toLowerCase :: "string \<Rightarrow> string" where
  "toLowerCase s = map lower_char s"

fun startsWith :: "string \<Rightarrow> string \<Rightarrow> bool" where
  "startsWith s [] = True"
| "startsWith [] (p # ps) = False"
| "startsWith (c # cs) (p # ps) = (c = p \<and> startsWith cs ps)"

fun js_includes :: "string \<Rightarrow> string \<Rightarrow> bool" where
  "js_includes [] p = (p = [])"
| "js_includes (c # cs) p = (startsWith (c # cs) p \<or> js_includes cs p)"

subsection \<open>JSON values of a request body\<close>

text \<open>
  \<open>JNum\<close> is a number that is an integer; \<open>JOther\<close> stands for the remaining values
  (other numbers, arrays, objects), which are all truthy, are no strings and cast to no
  boolean. A field of type \<open>json option\<close> is \<open>None\<close> when the body does not have it
  (\<open>undefined\<close>).
\<close>

datatype json = JNull | JBool bool | JNum int | JStr string | JOther

fun truthy :: "json option \<Rightarrow> bool" where
  "truthy None = False"
| "truthy (Some JNull) = False"
| "truthy (Some (JBool b)) = b"
| "truthy (Some (JNum n)) = (n \<noteq> 0)"
| "truthy (Some (JStr s)) = (s \<noteq> [])"
| "truthy (Some JOther) = True"

datatype js_error = TypeError | CastError | ValidationError | RegexError | StoreError

text \<open>
  The cast of Mongoose for a Boolean path: \<open>true\<close>, \<open>'true'\<close>, \<open>1\<close>, \<open>'1'\<close>, \<open>'yes'\<close> become
  \<open>true\<close>; \<open>false\<close>, \<open>'false'\<close>, \<open>0\<close>, \<open>'0'\<close>, \<open>'no'\<close> become \<open>false\<close>; \<open>null\<close> stays
  \<open>null\<close>; anything else is a cast error.
\<close>

fun castBoolean :: "json \<Rightarrow> js_error + bool option" where
  "castBoolean JNull = Inr None"
| "castBoolean (JBool b) = Inr (Some b)"
| "castBoolean (JNum n) =
     (if n = 1 then Inr (Some True) else if n = 0 then Inr (Some False) else Inl CastError)"
| "castBoolean (JStr s) =
     (if s = ''true'' \<or> s = ''1'' \<or> s = ''yes'' then Inr (Some True)
      else if s = ''false'' \<or> s = ''0'' \<or> s = ''no'' then Inr (Some False)
      else Inl CastError)"
| "castBoolean JOther = Inl CastError"

subsection \<open>Task documents (taskSchema, lines 339-361)\<close>

type_synonym object_id = string

record task =
  task_id :: object_id
  task_text :: string
  completed :: "bool option"
  important :: "bool option"
  createdAt :: int
  updatedAt :: int

record task_stats =
  total :: nat
  n_completed :: nat
  n_pending :: nat
  n_important :: nat

datatype body =
    Tasks_json "task list"
  | Task_json task
  | Stats_json task_stats
  | Message_json string
  | Error_json string
  | Exn_json js_error

record response =
  status :: nat
  body :: body

subsection \<open>What the driver and the database decide\<close>

record engine =
  cast_object_id :: "string \<Rightarrow> object_id option"
  regex_beyond :: "string \<Rightarrow> (string \<Rightarrow> bool) option"
  store_up :: bool

subsection \<open>\<open>sort(spec)\<close>\<close>

datatype sort_path = By_createdAt | By_updatedAt

datatype direction = Asc | Desc

fun path_value :: "sort_path \<Rightarrow> task \<Rightarrow> int" where
  "path_value By_createdAt t = createdAt t"
| "path_value By_updatedAt t = updatedAt t"

fun mongo_sort :: "sort_path \<times> direction \<Rightarrow> task list \<Rightarrow> task list" where
  "mongo_sort (p, Asc) ts = sort_key (\<lambda>t. path_value p t) ts"
| "mongo_sort (p, Desc) ts = sort_key (\<lambda>t. - path_value p t) ts"

subsection \<open>\<open>$regex\<close> with option \<open>i\<close>: the fragment with a fixed meaning\<close>

text \<open>
  A pattern of ordinary ASCII characters and dots: an ordinary character matches itself
  in either case, a dot matches any character but a line feed, and the pattern may match
  anywhere in the text. Any other pattern is left to \<open>regex_beyond\<close>, which returns
  \<open>None\<close> where the database rejects the pattern.
\<close>

datatype rx_atom = Lit char | Any_char

definition is_meta :: "char \<Rightarrow> bool" where
  "is_meta c = (c \<in> set (CHR 0x5C # ''^$.[]|()?*+{}''))"

definition is_plain :: "char \<Rightarrow> bool" where
  "is_plain c = (\<not> is_meta c \<and> 0 < (of_char c :: nat) \<and> (of_char c :: nat) < 128)"

fun rx_parse :: "string \<Rightarrow> rx_atom list option" where
  "rx_parse [] = Some []"
| "rx_parse (c # cs) =
     (if c = CHR ''.'' then map_option (\<lambda>as. Any_char # as) (rx_parse cs)
      else if is_plain c then map_option (\<lambda>as. Lit c # as) (rx_parse cs)
      else None)"

fun atom_match :: "rx_atom \<Rightarrow> char \<Rightarrow> bool" where
  "atom_match (Lit p) c = (lower_char p = lower_char c)"
| "atom_match Any_char c = (c \<noteq> CHR 0x0A)"

fun rx_prefix :: "rx_atom list \<Rightarrow> string \<Rightarrow> bool" where
  "rx_prefix [] cs = True"
| "rx_prefix (a # as) [] = False"
| "rx_prefix (a # as) (c # cs) = (atom_match a c \<and> rx_prefix as cs)"

fun rx_search :: "rx_atom list \<Rightarrow> string \<Rightarrow> bool" where
  "rx_search as [] = rx_prefix as []"
| "rx_search as (c # cs) = (rx_prefix as (c # cs) \<or> rx_search as cs)"

definition regex_i :: "engine \<Rightarrow> string \<Rightarrow> (string \<Rightarrow> bool) option" where
  "regex_i E pat =
     (case rx_parse pat of Some as \<Rightarrow> Some (rx_search as) | None \<Rightarrow> regex_beyond E pat)"

subsection \<open>GET /api/tasks (server.js, lines 371-393 of the file)\<close>

record query =
  q_filter :: "string option"
  q_search :: "string option"

record mongo_query =
  mq_completed :: "bool option"
  mq_important :: "bool option"
  mq_text :: "string option"

definition build_query :: "query \<Rightarrow> mongo_query" where
  "build_query q =
     (let q0 = \<lparr>mq_completed = None, mq_important = None, mq_text = None\<rparr>;
          q1 = (if q_filter q = Some ''completed'' then q0\<lparr>mq_completed := Some True\<rparr>
                else if q_filter q = Some ''pending'' then q0\<lparr>mq_completed := Some False\<rparr>
                else if q_filter q = Some ''important'' then q0\<lparr>mq_important := Some True\<rparr>
                else q0)
      in case q_search q of
           None \<Rightarrow> q1
         | Some s \<Rightarrow> if s \<noteq> [] then q1\<lparr>mq_text := Some s\<rparr> else q1)"

text \<open>A condition \<open>{path: b}\<close> of a query selects the documents whose value there is \<open>b\<close>.\<close>

definition field_ok :: "bool option \<Rightarrow> bool option \<Rightarrow> bool" where
  "field_ok want v = (case want of None \<Rightarrow> True | Some b \<Rightarrow> v = Some b)"

definition find_tasks :: "engine \<Rightarrow> mongo_query \<Rightarrow> task list \<Rightarrow> js_error + task list" where
  "find_tasks E mq db =
     (if \<not> store_up E then Inl StoreError
      else case mq_text mq of
        None \<Rightarrow>
          Inr (filter (\<lambda>t. field_ok (mq_completed mq) (completed t) \<and>
                           field_ok (mq_important mq) (important t)) db)
      | Some pat \<Rightarrow>
          (case regex_i E pat of
             None \<Rightarrow> Inl RegexError
           | Some m \<Rightarrow>
               Inr (filter (\<lambda>t. field_ok (mq_completed mq) (completed t) \<and>
                                field_ok (mq_important mq) (important t) \<and>
                                m (task_text t)) db)))"

definition get_tasks :: "engine \<Rightarrow> task list \<Rightarrow> query \<Rightarrow> response" where
  "get_tasks E db q =
     (case find_tasks E (build_query q) db of
        Inl e \<Rightarrow> \<lparr>status = 500, body = Exn_json e\<rparr>
      | Inr ts \<Rightarrow> \<lparr>status = 200, body = Tasks_json (mongo_sort (By_createdAt, Desc) ts)\<rparr>)"

subsection \<open>POST /api/tasks (lines 395-413; schema and pre-save hook, lines 339-366)\<close>

record create_body =
  cb_text :: "json option"
  cb_important :: "json option"

text \<open>
  \<open>new Task({text, important})\<close>: the schema trims the text, casts \<open>important\<close> and
  fills the defaults; \<open>new_id\<close> is the identifier the driver generates, \<open>t_new\<close> the clock
  read by the default of \<open>createdAt\<close>. A value that does not cast is not thrown here: the
  document carries the error until it is saved.
\<close>

definition new_Task :: "object_id \<Rightarrow> int \<Rightarrow> string \<Rightarrow> json \<Rightarrow> js_error + task" where
  "new_Task new_id t_new txt imp =
     (case castBoolean imp of
        Inl e \<Rightarrow> Inl e
      | Inr v \<Rightarrow>
          Inr \<lparr>task_id = new_id, task_text = trim txt, completed = Some False, important = v,
               createdAt = t_new, updatedAt = t_new\<rparr>)"

text \<open>
  \<open>task.save()\<close>: validation rejects a document that carries a cast error or whose
  required text is empty, the pre-save hook stamps \<open>updatedAt\<close> with the clock \<open>t_save\<close>,
  and the store, if it answers, appends the document.
\<close>

definition save ::
  "engine \<Rightarrow> int \<Rightarrow> task list \<Rightarrow> js_error + task \<Rightarrow> js_error + (task \<times> task list)" where
  "save E t_save db doc =
     (case doc of
        Inl e \<Rightarrow> Inl ValidationError
      | Inr t \<Rightarrow>
          (let t' = t\<lparr>updatedAt := t_save\<rparr>
           in if task_text t' = [] then Inl ValidationError
              else if \<not> store_up E then Inl StoreError
              else Inr (t', db @ [t'])))"

text \<open>
  The handler. \<open>important = false\<close> in the destructuring applies to an absent field only.
  \<open>text.trim()\<close> throws a \<open>TypeError\<close> on a truthy value that is no string; the \<open>catch\<close>
  answers every exception with 400.
\<close>

definition post_task ::
  "engine \<Rightarrow> object_id \<Rightarrow> int \<Rightarrow> int \<Rightarrow> task list \<Rightarrow> create_body \<Rightarrow> response \<times> task list" where
  "post_task E new_id t_new t_save db b =
     (let imp = (case cb_important b of None \<Rightarrow> JBool False | Some v \<Rightarrow> v)
      in if \<not> truthy (cb_text b)
         then (\<lparr>status = 400, body = Error_json ''Task text is required''\<rparr>, db)
         else (case cb_text b of
                 Some (JStr txt) \<Rightarrow>
                   if trim txt = []
                   then (\<lparr>status = 400, body = Error_json ''Task text is required''\<rparr>, db)
                   else (case save E t_save db (new_Task new_id t_new (trim txt) imp) of
                           Inl e \<Rightarrow> (\<lparr>status = 400, body = Exn_json e\<rparr>, db)
                         | Inr (saved, db') \<Rightarrow> (\<lparr>status = 201, body = Task_json saved\<rparr>, db'))
               | _ \<Rightarrow> (\<lparr>status = 400, body = Exn_json TypeError\<rparr>, db)))"

subsection \<open>PUT /api/tasks/:id (lines 415-439)\<close>

record update_body =
  ub_text :: "json option"
  ub_completed :: "json option"
  ub_important :: "json option"

record update_data =
  ud_text :: "string option"
  ud_completed :: "json option"
  ud_important :: "json option"
  ud_updatedAt :: int

text \<open>
  \<open>updateData\<close> as the handler builds it. The guards are \<open>!== undefined\<close>, so \<open>null\<close>
  passes them; \<open>text.trim()\<close> throws a \<open>TypeError\<close> on any value that is no string.
\<close>

definition build_update :: "int \<Rightarrow> update_body \<Rightarrow> js_error + update_data" where
  "build_update now b =
     (case ub_text b of
        None \<Rightarrow>
          Inr \<lparr>ud_text = None, ud_completed = ub_completed b, ud_important = ub_important b,
               ud_updatedAt = now\<rparr>
      | Some (JStr s) \<Rightarrow>
          Inr \<lparr>ud_text = Some (trim s), ud_completed = ub_completed b,
               ud_important = ub_important b, ud_updatedAt = now\<rparr>
      | Some v \<Rightarrow> Inl TypeError)"

text \<open>
  The update after Mongoose has cast it: for a Boolean path, \<open>None\<close> is a path the update
  does not set, \<open>Some None\<close> sets it to \<open>null\<close>.
\<close>

record casted_update =
  cu_text :: "string option"
  cu_completed :: "bool option option"
  cu_important :: "bool option option"
  cu_updatedAt :: int

definition cast_field :: "json option \<Rightarrow> js_error + bool option option" where
  "cast_field f =
     (case f of
        None \<Rightarrow> Inr None
      | Some v \<Rightarrow> (case castBoolean v of Inl e \<Rightarrow> Inl e | Inr x \<Rightarrow> Inr (Some x)))"

definition castUpdate :: "update_data \<Rightarrow> js_error + casted_update" where
  "castUpdate ud =
     (case cast_field (ud_completed ud) of
        Inl e \<Rightarrow> Inl e
      | Inr c \<Rightarrow>
          (case cast_field (ud_important ud) of
             Inl e \<Rightarrow> Inl e
           | Inr i \<Rightarrow>
               Inr \<lparr>cu_text = map_option trim (ud_text ud), cu_completed = c,
                    cu_important = i, cu_updatedAt = ud_updatedAt ud\<rparr>))"

definition apply_update :: "casted_update \<Rightarrow> task \<Rightarrow> task" where
  "apply_update cu t =
     t\<lparr>task_text := (case cu_text cu of None \<Rightarrow> task_text t | Some s \<Rightarrow> s),
       completed := (case cu_completed cu of None \<Rightarrow> completed t | Some v \<Rightarrow> v),
       important := (case cu_important cu of None \<Rightarrow> important t | Some v \<Rightarrow> v),
       updatedAt := cu_updatedAt cu\<rparr>"

fun update_first ::
  "(task \<Rightarrow> bool) \<Rightarrow> (task \<Rightarrow> task) \<Rightarrow> task list \<Rightarrow> (task \<times> task list) option" where
  "update_first p f [] = None"
| "update_first p f (t # ts) =
     (if p t then Some (f t, f t # ts)
      else map_option (\<lambda>(u, us). (u, t # us)) (update_first p f ts))"

text \<open>
  \<open>findByIdAndUpdate(id, updateData, {new: true, runValidators: true})\<close>: the path
  parameter \<open>rid\<close> and the update are cast, the validators run on the paths being set (a
  text that trims to nothing fails \<open>required\<close>), then the store, if it answers, updates
  the first document with that id and returns it.
\<close>

definition findByIdAndUpdate ::
  "engine \<Rightarrow> task list \<Rightarrow> string \<Rightarrow> update_data \<Rightarrow> js_error + (task \<times> task list) option" where
  "findByIdAndUpdate E db rid ud =
     (case cast_object_id E rid of
        None \<Rightarrow> Inl CastError
      | Some oid \<Rightarrow>
          (case castUpdate ud of
             Inl e \<Rightarrow> Inl e
           | Inr cu \<Rightarrow>
               if cu_text cu = Some [] then Inl ValidationError
               else if \<not> store_up E then Inl StoreError
               else Inr (update_first (\<lambda>t. task_id t = oid) (apply_update cu) db)))"

definition put_task ::
  "engine \<Rightarrow> int \<Rightarrow> task list \<Rightarrow> string \<Rightarrow> update_body \<Rightarrow> response \<times> task list" where
  "put_task E now db rid b =
     (case build_update now b of
        Inl e \<Rightarrow> (\<lparr>status = 400, body = Exn_json e\<rparr>, db)
      | Inr ud \<Rightarrow>
          (case findByIdAndUpdate E db rid ud of
             Inl e \<Rightarrow> (\<lparr>status = 400, body = Exn_json e\<rparr>, db)
           | Inr None \<Rightarrow> (\<lparr>status = 404, body = Error_json ''Task not found''\<rparr>, db)
           | Inr (Some (t, db')) \<Rightarrow> (\<lparr>status = 200, body = Task_json t\<rparr>, db')))"

subsection \<open>DELETE /api/tasks/:id (lines 441-451)\<close>




subsection \<open>GET /api/tasks/stats (lines 453-485)\<close>

text \<open>
  The \<open>$group\<close> stage with \<open>_id: null\<close>: one accumulator, to which every document adds
  \<open>$sum: 1\<close> and the three \<open>$cond\<close> terms, each an \<open>$eq\<close> of a field with a boolean; no
  group at all for an empty collection.
\<close>

definition cond_eq :: "bool option \<Rightarrow> bool \<Rightarrow> nat" where
  "cond_eq v b = (if v = Some b then 1 else 0)"

definition accumulate :: "task_stats \<Rightarrow> task \<Rightarrow> task_stats" where
  "accumulate g t =
     \<lparr>total = total g + 1,
      n_completed = n_completed g + cond_eq (completed t) True,
      n_pending = n_pending g + cond_eq (completed t) False,
      n_important = n_important g + cond_eq (important t) True\<rparr>"

definition zero_stats :: task_stats where
  "zero_stats = \<lparr>total = 0, n_completed = 0, n_pending = 0, n_important = 0\<rparr>"

definition aggregate_group :: "engine \<Rightarrow> task list \<Rightarrow> js_error + task_stats list" where
  "aggregate_group E db =
     (if \<not> store_up E then Inl StoreError
      else if db = [] then Inr [] else Inr [foldl accumulate zero_stats db])"

definition get_stats :: "engine \<Rightarrow> task list \<Rightarrow> response" where
  "get_stats E db =
     (case aggregate_group E db of
        Inl e \<Rightarrow> \<lparr>status = 500, body = Exn_json e\<rparr>
      | Inr stats_list \<Rightarrow>
          (let result = (case stats_list of [] \<Rightarrow> zero_stats | g # gs \<Rightarrow> g)
           in \<lparr>status = 200, body = Stats_json result\<rparr>))"

subsection \<open>The client: state and reconciliation (part_000, lines 9-116)\<close>

record client =
  tasks :: "task list"
  newTask :: string
  filter_sel :: string
  searchTerm :: string
  loading :: bool
  error :: "string option"
  stats :: task_stats

text \<open>
  What \<open>await fetch(...)\<close> gives the client: a rejected promise, or a response with a
  status and the value of \<open>response.json()\<close> (\<open>None\<close> when that call throws). The
  client reads the body only after \<open>response.ok\<close>.
\<close>

datatype 'a reply = Network_error | Http nat "'a option"

definition ok :: "nat \<Rightarrow> bool" where
  "ok st = (200 \<le> st \<and> st \<le> 299)"

datatype effect = Call_fetchStats

definition tasks_query :: "client \<Rightarrow> query" where
  "tasks_query c =
     \<lparr>q_filter = (if filter_sel c \<noteq> ''all'' then Some (filter_sel c) else None),
      q_search = (if searchTerm c \<noteq> [] then Some (searchTerm c) else None)\<rparr>"

definition fetchTasks :: "task list reply \<Rightarrow> client \<Rightarrow> client" where
  "fetchTasks r c =
     (let c1 = c\<lparr>loading := True\<rparr>;
          failure = c1\<lparr>error := Some ''Failed to load tasks. Please try again.''\<rparr>;
          c2 = (case r of
                  Network_error \<Rightarrow> failure
                | Http st payload \<Rightarrow>
                    if \<not> ok st then failure
                    else (case payload of
                            None \<Rightarrow> failure
                          | Some data \<Rightarrow> c1\<lparr>tasks := data, error := None\<rparr>))
      in c2\<lparr>loading := False\<rparr>)"

definition fetchStats :: "task_stats reply \<Rightarrow> client \<Rightarrow> client" where
  "fetchStats r c =
     (case r of
        Network_error \<Rightarrow> c
      | Http st payload \<Rightarrow>
          if \<not> ok st then c
          else (case payload of None \<Rightarrow> c | Some data \<Rightarrow> c\<lparr>stats := data\<rparr>))"

definition createTask :: "task reply \<Rightarrow> client \<Rightarrow> client \<times> effect list" where
  "createTask r c =
     (let failure = (c\<lparr>error := Some ''Failed to create task. Please try again.''\<rparr>, [])
      in case r of
           Network_error \<Rightarrow> failure
         | Http st payload \<Rightarrow>
             if \<not> ok st then failure
             else (case payload of
                     None \<Rightarrow> failure
                   | Some created \<Rightarrow> (c\<lparr>tasks := created # tasks c\<rparr>, [Call_fetchStats])))"

definition updateTask :: "string \<Rightarrow> task reply \<Rightarrow> client \<Rightarrow> client \<times> effect list" where
  "updateTask rid r c =
     (let failure = (c\<lparr>error := Some ''Failed to update task. Please try again.''\<rparr>, [])
      in case r of
           Network_error \<Rightarrow> failure
         | Http st payload \<Rightarrow>
             if \<not> ok st then failure
             else (case payload of
                     None \<Rightarrow> failure
                   | Some updatedTask \<Rightarrow>
                       (c\<lparr>tasks := map (\<lambda>t. if task_id t = rid then updatedTask else t) (tasks c)\<rparr>,
                        [Call_fetchStats])))"

definition deleteTask :: "string \<Rightarrow> body reply \<Rightarrow> client \<Rightarrow> client \<times> effect list" where
  "deleteTask rid r c =
     (let failure = (c\<lparr>error := Some ''Failed to delete task. Please try again.''\<rparr>, [])
      in case r of
           Network_error \<Rightarrow> failure
         | Http st payload \<Rightarrow>
             if \<not> ok st then failure
             else (c\<lparr>tasks := filter (\<lambda>t. task_id t \<noteq> rid) (tasks c)\<rparr>, [Call_fetchStats]))"

text \<open>A response of the service as the client's \<open>fetch\<close> receives it.\<close>

definition as_task :: "body \<Rightarrow> task option" where
  "as_task b = (case b of Task_json t \<Rightarrow> Some t | _ \<Rightarrow> None)"

definition deliver :: "response \<Rightarrow> task reply" where
  "deliver r = Http (status r) (as_task (body r))"

text \<open>A request has failed: the network error, or the response that is not \<open>ok\<close>.\<close>

definition failed :: "'a reply \<Rightarrow> bool" where
  "failed r = (case r of Network_error \<Rightarrow> True | Http st payload \<Rightarrow> \<not> ok st)"

subsection \<open>The search of the earlier client (\<open>filteredTasks\<close>, lines 61-74)\<close>

definition matchesSearch :: "string \<Rightarrow> string \<Rightarrow> bool" where
  "matchesSearch needle txt = js_includes (toLowerCase txt) (toLowerCase needle)"

subsection \<open>Reference points of the specification\<close>

text \<open>The text contains the search string as a literal substring, whatever the case.\<close>

definition contains_ci :: "string \<Rightarrow> string \<Rightarrow> bool" where
  "contains_ci s txt = sublist (toLowerCase s) (toLowerCase txt)"

text \<open>A direct recount of the collection.\<close>

definition recount :: "task list \<Rightarrow> task_stats" where
  "recount db =
     \<lparr>total = length db,
      n_completed = length (filter (\<lambda>t. completed t = Some True) db),
      n_pending = length (filter (\<lambda>t. completed t = Some False) db),
      n_important = length (filter (\<lambda>t. important t = Some True) db)\<rparr>"

text \<open>
  A payload the update accepts: the text absent or a string that does not trim to
  nothing, \<open>completed\<close> and \<open>important\<close> absent or values that cast.
\<close>

definition castable :: "json option \<Rightarrow> bool" where
  "castable f =
     (case f of
        None \<Rightarrow> True
      | Some v \<Rightarrow> (case castBoolean v of Inl e \<Rightarrow> False | Inr x \<Rightarrow> True))"



text \<open>
  An engine for concrete runs: an object id is 24 hexadecimal digits, kept in lower
  case; no pattern beyond the fragment is accepted; the store answers.
\<close>

definition is_hex :: "char \<Rightarrow> bool" where
  "is_hex c = (c \<in> set ''0123456789abcdefABCDEF'')"

definition hex24 :: "string \<Rightarrow> object_id option" where
  "hex24 s = (if length s = 24 \<and> list_all is_hex s then Some (toLowerCase s) else None)"

definition reference_engine :: engine where
  "reference_engine =
     \<lparr>cast_object_id = hex24, regex_beyond = (\<lambda>pat. None), store_up = True\<rparr>"

subsection \<open>Sample documents\<close>

definition id_a :: object_id where
  "id_a = ''65a1b2c3d4e5f60718293a4b''"

definition id_b :: object_id where
  "id_b = ''65a1b2c3d4e5f60718293a4c''"

definition id_c :: object_id where
  "id_c = ''65a1b2c3d4e5f60718293a4d''"

definition task_a :: task where
  "task_a = \<lparr>task_id = id_a, task_text = ''Alpha'', completed = Some False,
             important = Some False, createdAt = 1000, updatedAt = 1000\<rparr>"

definition task_b :: task where
  "task_b = \<lparr>task_id = id_b, task_text = ''beta'', completed = Some True,
             important = Some True, createdAt = 1000, updatedAt = 1500\<rparr>"

definition task_c :: task where
  "task_c = \<lparr>task_id = id_c, task_text = ''abc'', completed = Some False,
             important = Some True, createdAt = 3000, updatedAt = 3000\<rparr>"

definition task_n :: task where
  "task_n = task_a\<lparr>completed := None, updatedAt := 2000\<rparr>"

definition client0 :: client where
  "client0 =
     \<lparr>tasks = [task_a, task_b], newTask = [], filter_sel = ''all'', searchTerm = [],
      loading = False, error = None,
      stats = \<lparr>total = 2, n_completed = 1, n_pending = 1, n_important = 1\<rparr>\<rparr>"

section \<open>Auxiliary facts\<close>

subsection \<open>Trimming\<close>

lemma rev_dropWhile_rev_head:
  "xs = [] \<or> \<not> P (hd xs) \<Longrightarrow>
   rev (dropWhile P (rev xs)) = [] \<or> \<not> P (hd (rev (dropWhile P (rev xs))))"
  by (metis dropWhile_eq_self_iff dropWhile_last hd_rev last_in_set last_rev rev.simps(1))

lemma trim_head: "trim s = [] \<or> \<not> is_space (hd (trim s))"
  unfolding trim_def using hd_dropWhile [of is_space s] by (intro rev_dropWhile_rev_head) blast

lemma dropWhile_trim: "dropWhile is_space (trim s) = trim s"
  using trim_head [of s] by (simp add: dropWhile_eq_self_iff)

lemma trim_idem: "trim (trim s) = trim s"
proof -
  have "trim (trim s) = rev (dropWhile is_space (rev (trim s)))"
    unfolding trim_def [of "trim s"] by (simp only: dropWhile_trim)
  also have "rev (trim s) = dropWhile is_space (rev (dropWhile is_space s))"
    by (simp add: trim_def)
  also have "rev (dropWhile is_space (dropWhile is_space (rev (dropWhile is_space s)))) = trim s"
    by (simp add: trim_def)
  finally show ?thesis .
qed

lemma trim_Nil: "trim [] = []"
  by (simp add: trim_def)

lemma trim_buy_milk: "trim '' buy milk '' = ''buy milk''"
  by code_simp

subsection \<open>Literal patterns and \<open>includes\<close>\<close>

lemma is_plain_not_dot: "is_plain c \<Longrightarrow> c \<noteq> CHR ''.''"
  by (auto simp: is_plain_def is_meta_def)

lemma rx_parse_plain: "list_all is_plain s \<Longrightarrow> rx_parse s = Some (map Lit s)"
  by (induction s) (simp_all add: is_plain_not_dot)

lemma rx_prefix_lit: "rx_prefix (map Lit p) hay = prefix (toLowerCase p) (toLowerCase hay)"
proof (induction p arbitrary: hay)
  case Nil
  then show ?case by (simp add: toLowerCase_def)
next
  case (Cons a p)
  then show ?case by (cases hay) (auto simp: toLowerCase_def)
qed

lemma rx_search_lit: "rx_search (map Lit p) hay = sublist (toLowerCase p) (toLowerCase hay)"
proof (induction hay)
  case Nil
  then show ?case by (cases p) (simp_all add: toLowerCase_def)
next
  case (Cons c cs)
  have "rx_search (map Lit p) (c # cs) =
          (prefix (toLowerCase p) (toLowerCase (c # cs)) \<or> sublist (toLowerCase p) (toLowerCase cs))"
    using Cons by (simp add: rx_prefix_lit)
  also have "\<dots> = sublist (toLowerCase p) (toLowerCase (c # cs))"
    by (simp add: toLowerCase_def sublist_Cons_right)
  finally show ?case .
qed

lemma startsWith_prefix: "startsWith s p = prefix p s"
  by (induction s p rule: startsWith.induct) auto

lemma js_includes_sublist: "js_includes s p = sublist p s"
  by (induction s) (simp_all add: startsWith_prefix sublist_Cons_right)

lemma matchesSearch_contains_ci: "matchesSearch needle hay = contains_ci needle hay"
  by (simp add: matchesSearch_def contains_ci_def js_includes_sublist)

subsection \<open>The \<open>$group\<close> accumulator\<close>

lemma foldl_accumulate:
  "foldl accumulate g db =
     \<lparr>total = total g + length db,
      n_completed = n_completed g + length (filter (\<lambda>t. completed t = Some True) db),
      n_pending = n_pending g + length (filter (\<lambda>t. completed t = Some False) db),
      n_important = n_important g + length (filter (\<lambda>t. important t = Some True) db)\<rparr>"
  by (induction db arbitrary: g) (simp_all add: accumulate_def cond_eq_def)

lemma length_filter_three:
  "length (filter (\<lambda>t. completed t = Some True) db)
   + length (filter (\<lambda>t. completed t = Some False) db)
   + length (filter (\<lambda>t. completed t = None) db) = length db"
proof (induction db)
  case Nil
  then show ?case by simp
next
  case (Cons t ts)
  then show ?case by (cases "completed t") auto
qed

subsection \<open>The first document with an id\<close>


lemma update_first_Some:
  "update_first p f db = Some (u, db') \<Longrightarrow>
   \<exists>i<length db. p (db ! i) \<and> (\<forall>j<i. \<not> p (db ! j)) \<and> u = f (db ! i) \<and> db' = db[i := u]"
proof (induction db arbitrary: db')
  case Nil
  then show ?case by simp
next
  case (Cons t ts)
  show ?case
  proof (cases "p t")
    case True
    with Cons.prems have "u = f t" "db' = f t # ts" by auto
    with True show ?thesis by (intro exI [of _ 0]) simp
  next
    case False
    with Cons.prems obtain us where us: "update_first p f ts = Some (u, us)" "db' = t # us"
      by auto
    from Cons.IH [OF us(1)] obtain i where i: "i < length ts" "p (ts ! i)"
      "\<forall>j<i. \<not> p (ts ! j)" "u = f (ts ! i)" "us = ts[i := u]" by blast
    have "\<forall>j<Suc i. \<not> p ((t # ts) ! j)"
      using False i(3) by (auto simp: less_Suc_eq_0_disj)
    with i us(2) show ?thesis by (intro exI [of _ "Suc i"]) simp
  qed
qed



subsection \<open>The reference engine\<close>

lemma hex24_a: "hex24 id_a = Some id_a"
  by code_simp

lemma hex24_b: "hex24 id_b = Some id_b"
  by code_simp



subsection \<open>Sorting, searching and the outcomes of a query\<close>

lemma set_mongo_sort: "set (mongo_sort spec ts) = set ts"
proof (cases spec)
  case (Pair p d)
  then show ?thesis by (cases d) simp_all
qed




lemma build_query_fields:
  "mq_text (build_query \<lparr>q_filter = f, q_search = s\<rparr>) =
     (case s of None \<Rightarrow> None | Some x \<Rightarrow> if x \<noteq> [] then Some x else None)"
  "mq_completed (build_query \<lparr>q_filter = f, q_search = s\<rparr>) =
     (if f = Some ''completed'' then Some True else if f = Some ''pending'' then Some False else None)"
  "mq_important (build_query \<lparr>q_filter = f, q_search = s\<rparr>) =
     (if f = Some ''completed'' then None else if f = Some ''pending'' then None
      else if f = Some ''important'' then Some True else None)"
  by (simp_all add: build_query_def Let_def split: option.splits)

lemma get_tasks_down:
  assumes "\<not> store_up E"
  shows "get_tasks E db q = \<lparr>status = 500, body = Exn_json StoreError\<rparr>"
  using assms by (simp add: get_tasks_def find_tasks_def)

lemma get_tasks_unconstrained:
  assumes "store_up E" and "mq_text (build_query \<lparr>q_filter = f, q_search = s\<rparr>) = None"
  shows "get_tasks E db \<lparr>q_filter = f, q_search = s\<rparr> =
     \<lparr>status = 200, body = Tasks_json (mongo_sort (By_createdAt, Desc)
        (filter (\<lambda>t. field_ok (mq_completed (build_query \<lparr>q_filter = f, q_search = s\<rparr>)) (completed t)
                  \<and> field_ok (mq_important (build_query \<lparr>q_filter = f, q_search = s\<rparr>)) (important t)) db))\<rparr>"
  using assms by (simp add: get_tasks_def find_tasks_def)

lemma get_tasks_rejected:
  assumes "store_up E" and "mq_text (build_query \<lparr>q_filter = f, q_search = s\<rparr>) = Some pat"
    and "regex_i E pat = None"
  shows "get_tasks E db \<lparr>q_filter = f, q_search = s\<rparr> = \<lparr>status = 500, body = Exn_json RegexError\<rparr>"
  using assms by (simp add: get_tasks_def find_tasks_def)

lemma get_tasks_matched:
  assumes "store_up E" and "mq_text (build_query \<lparr>q_filter = f, q_search = s\<rparr>) = Some pat"
    and "regex_i E pat = Some m"
  shows "get_tasks E db \<lparr>q_filter = f, q_search = s\<rparr> =
     \<lparr>status = 200, body = Tasks_json (mongo_sort (By_createdAt, Desc)
        (filter (\<lambda>t. field_ok (mq_completed (build_query \<lparr>q_filter = f, q_search = s\<rparr>)) (completed t)
                  \<and> field_ok (mq_important (build_query \<lparr>q_filter = f, q_search = s\<rparr>)) (important t)
                  \<and> m (task_text t)) db))\<rparr>"
  using assms by (simp add: get_tasks_def find_tasks_def)

lemma partition_sets:
  "set (mongo_sort spec (filter (\<lambda>t. completed t = Some True \<and> P t) db))
     \<inter> set (mongo_sort spec (filter (\<lambda>t. completed t = Some False \<and> P t) db)) = {}"
  "set (mongo_sort spec (filter (\<lambda>t. completed t = Some True \<and> P t) db))
     \<union> set (mongo_sort spec (filter (\<lambda>t. completed t = Some False \<and> P t) db))
     = {t \<in> set (mongo_sort spec (filter P db)). completed t \<noteq> None}"
  by (auto simp: set_mongo_sort)

lemma regex_i_plain:
  "list_all is_plain s \<Longrightarrow>
   regex_i E s = Some (\<lambda>hay. sublist (toLowerCase s) (toLowerCase hay))"
  by (simp add: regex_i_def rx_parse_plain rx_search_lit fun_eq_iff)

lemma get_tasks_plain_search:
  assumes "store_up E" and "s \<noteq> []" and "list_all is_plain s"
  shows "\<exists>ts. get_tasks E db \<lparr>q_filter = f, q_search = Some s\<rparr> = \<lparr>status = 200, body = Tasks_json ts\<rparr>
            \<and> set ts \<subseteq> {t \<in> set db. contains_ci s (task_text t)}
            \<and> (f \<notin> {Some ''completed'', Some ''pending'', Some ''important''} \<longrightarrow>
                 set ts = {t \<in> set db. contains_ci s (task_text t)})"
proof -
  have t: "mq_text (build_query \<lparr>q_filter = f, q_search = Some s\<rparr>) = Some s"
    using assms(2) by (simp add: build_query_fields)
  note run = get_tasks_matched [OF assms(1) t regex_i_plain [OF assms(3)], of db]
  show ?thesis
    unfolding run
    by (auto simp: set_mongo_sort contains_ci_def build_query_fields field_ok_def)
qed

lemma get_tasks_case_insensitive:
  assumes "list_all is_plain s" and "list_all is_plain s'" and "toLowerCase s = toLowerCase s'"
  shows "get_tasks E db \<lparr>q_filter = f, q_search = Some s\<rparr> =
         get_tasks E db \<lparr>q_filter = f, q_search = Some s'\<rparr>"
proof -
  from assms(3) have "s = [] \<longleftrightarrow> s' = []"
    by (metis toLowerCase_def map_is_Nil_conv)
  with assms show ?thesis
    by (simp add: get_tasks_def find_tasks_def build_query_def Let_def regex_i_plain)
qed

lemma toLowerCase_FOO: "toLowerCase ''FOO'' = toLowerCase ''foo''"
  by code_simp

subsection \<open>What an update that succeeds has done\<close>

lemma put_task_status: "status (fst (put_task E now db rid b)) \<in> {200, 400, 404}"
  by (simp add: put_task_def split: sum.splits option.splits prod.splits)

lemma ok_200: "ok 200" and not_ok_400: "\<not> ok 400" and not_ok_404: "\<not> ok 404" and not_ok_500: "\<not> ok 500"
  by (simp_all add: ok_def)

lemma findByIdAndUpdate_Some:
  assumes "findByIdAndUpdate E db rid ud = Inr (Some (u, db'))"
  shows "\<exists>oid cu. cast_object_id E rid = Some oid \<and> castUpdate ud = Inr cu
           \<and> cu_text cu \<noteq> Some [] \<and> store_up E
           \<and> update_first (\<lambda>t. task_id t = oid) (apply_update cu) db = Some (u, db')"
proof (cases "cast_object_id E rid")
  case None
  with assms show ?thesis by (simp add: findByIdAndUpdate_def)
next
  case (Some oid)
  show ?thesis
  proof (cases "castUpdate ud")
    case (Inl e)
    with Some assms show ?thesis by (simp add: findByIdAndUpdate_def)
  next
    case (Inr cu)
    with Some assms show ?thesis
      by (simp add: findByIdAndUpdate_def split: if_splits)
  qed
qed

lemma put_task_200:
  assumes "put_task E now db rid b = (r, db')" and "status r = 200"
  shows "\<exists>ud cu oid u. build_update now b = Inr ud \<and> castUpdate ud = Inr cu
           \<and> cast_object_id E rid = Some oid \<and> cu_text cu \<noteq> Some [] \<and> store_up E
           \<and> update_first (\<lambda>t. task_id t = oid) (apply_update cu) db = Some (u, db')
           \<and> body r = Task_json u"
proof (cases "build_update now b")
  case (Inl e)
  with assms show ?thesis by (auto simp: put_task_def)
next
  case (Inr ud)
  show ?thesis
  proof (cases "findByIdAndUpdate E db rid ud")
    case (Inl e)
    with Inr assms show ?thesis by (auto simp: put_task_def)
  next
    case found: (Inr x)
    show ?thesis
    proof (cases x)
      case None
      with Inr found assms show ?thesis by (auto simp: put_task_def)
    next
      case (Some p)
      obtain u db'' where p: "p = (u, db'')" by (cases p)
      with Some found have f: "findByIdAndUpdate E db rid ud = Inr (Some (u, db''))"
        by simp
      with Inr assms(1) have r: "r = \<lparr>status = 200, body = Task_json u\<rparr>" and d: "db' = db''"
        by (simp_all add: put_task_def)
      from findByIdAndUpdate_Some [OF f] obtain oid cu where
        "cast_object_id E rid = Some oid" "castUpdate ud = Inr cu" "cu_text cu \<noteq> Some []" "store_up E"
        "update_first (\<lambda>t. task_id t = oid) (apply_update cu) db = Some (u, db'')" by blast
      with Inr r d show ?thesis by auto
    qed
  qed
qed

lemma build_update_Inr:
  assumes "build_update now b = Inr ud"
  shows "ud_updatedAt ud = now \<and> ud_completed ud = ub_completed b \<and> ud_important ud = ub_important b
       \<and> (case ub_text b of None \<Rightarrow> ud_text ud = None
           | Some j \<Rightarrow> \<exists>s. j = JStr s \<and> ud_text ud = Some (trim s))"
proof (cases "ub_text b")
  case None
  with assms show ?thesis by (auto simp: build_update_def)
next
  case (Some j)
  with assms show ?thesis by (cases j) (auto simp: build_update_def)
qed

lemma cast_field_Inr:
  "cast_field f = Inr c \<Longrightarrow>
   (case f of None \<Rightarrow> c = None | Some j \<Rightarrow> \<exists>v. castBoolean j = Inr v \<and> c = Some v)"
  by (cases f) (auto simp: cast_field_def split: sum.splits)

lemma castUpdate_Inr:
  assumes "castUpdate ud = Inr cu"
  shows "cu_text cu = map_option trim (ud_text ud) \<and> cu_updatedAt cu = ud_updatedAt ud
       \<and> cast_field (ud_completed ud) = Inr (cu_completed cu)
       \<and> cast_field (ud_important ud) = Inr (cu_important cu)"
proof (cases "cast_field (ud_completed ud)")
  case (Inl e)
  with assms show ?thesis by (simp add: castUpdate_def)
next
  case c: (Inr c)
  show ?thesis
  proof (cases "cast_field (ud_important ud)")
    case (Inl e)
    with c assms show ?thesis by (simp add: castUpdate_def)
  next
    case (Inr i)
    with c assms show ?thesis by (auto simp: castUpdate_def)
  qed
qed

subsection \<open>A document whose \<open>completed\<close> is \<open>null\<close>\<close>

lemma reach_task_a:
  "post_task reference_engine id_a 1000 1000 []
     \<lparr>cb_text = Some (JStr ''Alpha''), cb_important = None\<rparr> =
   (\<lparr>status = 201, body = Task_json task_a\<rparr>, [task_a])"
  by code_simp

lemma reach_task_n:
  "put_task reference_engine 2000 [task_a] id_a
     \<lparr>ub_text = None, ub_completed = Some JNull, ub_important = None\<rparr> =
   (\<lparr>status = 200, body = Task_json task_n\<rparr>, [task_n])"
  by code_simp

lemma put_task_ok_returns_id:
  assumes "put_task E now db rid b = (r, db')" and "ok (status r)"
  shows "\<exists>oid u. cast_object_id E rid = Some oid \<and> status r = 200 \<and> body r = Task_json u \<and> task_id u = oid"
proof -
  from put_task_status [of E now db rid b] assms have st: "status r = 200"
    by (auto simp: ok_def)
  from put_task_200 [OF assms(1) st] obtain cu oid u where
    oid: "cast_object_id E rid = Some oid"
    and upd: "update_first (\<lambda>t. task_id t = oid) (apply_update cu) db = Some (u, db')"
    and r: "body r = Task_json u"
    by blast
  from update_first_Some [OF upd] obtain i where "task_id (db ! i) = oid"
    "u = apply_update cu (db ! i)" by blast
  then have "task_id u = oid"
    by (simp add: apply_update_def)
  with st oid r show ?thesis by blast
qed

subsection \<open>Creation\<close>

lemma post_task_not_string:
  assumes "\<forall>s. cb_text b \<noteq> Some (JStr s)"
  shows "\<exists>x. post_task E nid t0 t1 db b = (\<lparr>status = 400, body = x\<rparr>, db)"
proof (cases "cb_text b")
  case None
  then show ?thesis by (simp add: post_task_def)
next
  case (Some j)
  with assms show ?thesis
    by (cases j) (simp_all add: post_task_def Let_def)
qed

lemma post_task_string:
  assumes "cb_text b = Some (JStr s)"
  shows "post_task E nid t0 t1 db b =
     (if trim s = [] then (\<lparr>status = 400, body = Error_json ''Task text is required''\<rparr>, db)
      else (case castBoolean (case cb_important b of None \<Rightarrow> JBool False | Some v \<Rightarrow> v) of
              Inl e \<Rightarrow> (\<lparr>status = 400, body = Exn_json ValidationError\<rparr>, db)
            | Inr v \<Rightarrow>
                if store_up E
                then (let saved = \<lparr>task_id = nid, task_text = trim s, completed = Some False,
                                    important = v, createdAt = t0, updatedAt = t1\<rparr>
                      in (\<lparr>status = 201, body = Task_json saved\<rparr>, db @ [saved]))
                else (\<lparr>status = 400, body = Exn_json StoreError\<rparr>, db)))"
proof (cases "trim s = []")
  case True
  with assms show ?thesis
    by (simp add: post_task_def Let_def)
next
  case False
  then have "s \<noteq> []"
    by (auto simp: trim_Nil)
  with False assms show ?thesis
    by (simp add: post_task_def Let_def save_def new_Task_def trim_idem split: sum.splits)
qed

subsection \<open>Updates and deletes that find no document, or fail\<close>









section \<open>The claims\<close>

text \<open>
  C1. The specification has a search string matched as a literal substring, whatever
  the case, with no special meaning for the metacharacters of regular expressions. The
  handler passes the string to \<open>$regex\<close> as it is: the search \<open>.\<close> returns the task whose
  text is \<open>abc\<close>, which holds no dot. The earlier client's \<open>matchesSearch\<close>, which lowers
  both strings and calls \<open>includes\<close>, rejects that task. (For a search string of ordinary
  characters the two agree, and the case of the search string does not matter:
  \<open>get_tasks_plain_search\<close>, \<open>matchesSearch_contains_ci\<close>, \<open>get_tasks_case_insensitive\<close>.)
\<close>

theorem search_dot_matches_any_text:
  "get_tasks reference_engine [task_c] \<lparr>q_filter = None, q_search = Some ''.''\<rparr> =
     \<lparr>status = 200, body = Tasks_json [task_c]\<rparr>
   \<and> task_text task_c = ''abc''
   \<and> \<not> contains_ci ''.'' ''abc''
   \<and> \<not> matchesSearch ''.'' ''abc''"
proof -
  have "get_tasks reference_engine [task_c] \<lparr>q_filter = None, q_search = Some ''.''\<rparr> =
     \<lparr>status = 200, body = Tasks_json [task_c]\<rparr>"
    by code_simp
  moreover have "task_text task_c = ''abc''"
    by (simp add: task_c_def)
  moreover have "\<not> contains_ci ''.'' ''abc''"
    by code_simp
  moreover have "\<not> matchesSearch ''.'' ''abc''"
    by code_simp
  ultimately show ?thesis by simp
qed

text \<open>
  C2, as specified, fails: completed and pending do not always add up to the total. The
  guard of the update handler is \<open>completed !== undefined\<close>, so a body with
  \<open>completed: null\<close> passes it, and the schema does not require the field. After a create
  and such an update the collection holds one document, and the two \<open>$eq\<close> tests count it
  neither as completed nor as pending. And a store that does not answer is answered 500,
  with no counts.
\<close>

theorem null_completed_counted_in_neither:
  "post_task reference_engine id_a 1000 1000 []
     \<lparr>cb_text = Some (JStr ''Alpha''), cb_important = None\<rparr> =
   (\<lparr>status = 201, body = Task_json task_a\<rparr>, [task_a])
   \<and> put_task reference_engine 2000 [task_a] id_a
     \<lparr>ub_text = None, ub_completed = Some JNull, ub_important = None\<rparr> =
   (\<lparr>status = 200, body = Task_json task_n\<rparr>, [task_n])
   \<and> get_stats reference_engine [task_n] =
       \<lparr>status = 200,
        body = Stats_json \<lparr>total = 1, n_completed = 0, n_pending = 0, n_important = 0\<rparr>\<rparr>
   \<and> get_stats (reference_engine\<lparr>store_up := False\<rparr>) [task_a] =
       \<lparr>status = 500, body = Exn_json StoreError\<rparr>"
proof -
  have "get_stats reference_engine [task_n] =
       \<lparr>status = 200,
        body = Stats_json \<lparr>total = 1, n_completed = 0, n_pending = 0, n_important = 0\<rparr>\<rparr>"
    by code_simp
  moreover have "get_stats (reference_engine\<lparr>store_up := False\<rparr>) [task_a] =
       \<lparr>status = 500, body = Exn_json StoreError\<rparr>"
    by code_simp
  ultimately show ?thesis
    using reach_task_a reach_task_n by (simp only: simp_thms)
qed

text \<open>
  C2, amended. Whatever the collection holds, GET /api/tasks/stats, when the store
  answers, returns 200 with the four counts of a direct recount: the number of
  documents, of those whose \<open>completed\<close> is true, of those whose \<open>completed\<close> is false,
  and of those whose \<open>important\<close> is true. Completed and pending fall short of the total
  by the number of documents whose \<open>completed\<close> is \<open>null\<close>; they add up to the total when
  there is none. The empty collection gives four zeros.
\<close>

theorem get_stats_recount:
  assumes "store_up E"
  shows "get_stats E db = \<lparr>status = 200, body = Stats_json (recount db)\<rparr>
   \<and> n_completed (recount db) + n_pending (recount db)
       + length (filter (\<lambda>t. completed t = None) db) = total (recount db)
   \<and> ((\<forall>t\<in>set db. completed t \<noteq> None) \<longrightarrow>
        n_completed (recount db) + n_pending (recount db) = total (recount db))
   \<and> get_stats E [] =
       \<lparr>status = 200,
        body = Stats_json \<lparr>total = 0, n_completed = 0, n_pending = 0, n_important = 0\<rparr>\<rparr>"
proof -
  have run: "get_stats E db = \<lparr>status = 200, body = Stats_json (recount db)\<rparr>"
  proof (cases db)
    case Nil
    with assms show ?thesis
      by (simp add: get_stats_def aggregate_group_def zero_stats_def recount_def)
  next
    case (Cons t ts)
    with assms show ?thesis
      by (simp add: get_stats_def aggregate_group_def foldl_accumulate zero_stats_def
          recount_def accumulate_def cond_eq_def)
  qed
  have three: "n_completed (recount db) + n_pending (recount db)
       + length (filter (\<lambda>t. completed t = None) db) = total (recount db)"
    by (simp add: recount_def length_filter_three)
  have "filter (\<lambda>t. completed t = None) db = []" if "\<forall>t\<in>set db. completed t \<noteq> None"
    using that by (simp add: filter_empty_conv)
  with three have two: "(\<forall>t\<in>set db. completed t \<noteq> None) \<longrightarrow>
        n_completed (recount db) + n_pending (recount db) = total (recount db)"
    by auto
  have empty: "get_stats E [] =
       \<lparr>status = 200,
        body = Stats_json \<lparr>total = 0, n_completed = 0, n_pending = 0, n_important = 0\<rparr>\<rparr>"
    using assms by (simp add: get_stats_def aggregate_group_def zero_stats_def)
  from run three two empty show ?thesis by (intro conjI)
qed

theorem get_stats_recount_witness:
  "get_stats reference_engine [task_a, task_b, task_c] =
     \<lparr>status = 200,
      body = Stats_json \<lparr>total = 3, n_completed = 1, n_pending = 2, n_important = 2\<rparr>\<rparr>
   \<and> recount [task_a, task_b, task_c] =
       \<lparr>total = 3, n_completed = 1, n_pending = 2, n_important = 2\<rparr>
   \<and> n_completed (recount [task_a, task_b, task_c]) + n_pending (recount [task_a, task_b, task_c])
       = total (recount [task_a, task_b, task_c])"
proof -
  have up: "store_up reference_engine"
    by (simp add: reference_engine_def)
  have bools: "\<forall>t\<in>set [task_a, task_b, task_c]. completed t \<noteq> None"
    by (auto simp: task_a_def task_b_def task_c_def)
  have rc: "recount [task_a, task_b, task_c] =
       \<lparr>total = 3, n_completed = 1, n_pending = 2, n_important = 2\<rparr>"
    by code_simp
  note inst = get_stats_recount [OF up, of "[task_a, task_b, task_c]"]
  from inst have run: "get_stats reference_engine [task_a, task_b, task_c] =
     \<lparr>status = 200, body = Stats_json (recount [task_a, task_b, task_c])\<rparr>"
    by (rule conjunct1)
  from inst bools have sum: "n_completed (recount [task_a, task_b, task_c])
      + n_pending (recount [task_a, task_b, task_c]) = total (recount [task_a, task_b, task_c])"
    by (elim conjE impE) assumption+
  from run rc have "get_stats reference_engine [task_a, task_b, task_c] =
     \<lparr>status = 200,
      body = Stats_json \<lparr>total = 3, n_completed = 1, n_pending = 2, n_important = 2\<rparr>\<rparr>"
    by (simp only:)
  with rc sum show ?thesis by (intro conjI)
qed

text \<open>
  C3, as specified, fails in the direction "400 only if the text is absent or trims to
  nothing": a text that is the number 123 throws in \<open>text.trim()\<close>, a value of
  \<open>important\<close> that does not cast fails validation in \<open>save()\<close>, and so does a store that
  does not answer; the handler's \<open>catch\<close> answers each with 400, and no record is
  created.
\<close>

theorem non_string_text_is_400:
  "post_task reference_engine id_a 1000 1000 []
     \<lparr>cb_text = Some (JNum 123), cb_important = None\<rparr> =
   (\<lparr>status = 400, body = Exn_json TypeError\<rparr>, [])
   \<and> post_task reference_engine id_a 1000 1000 []
     \<lparr>cb_text = Some (JStr ''Alpha''), cb_important = Some (JStr ''banana'')\<rparr> =
   (\<lparr>status = 400, body = Exn_json ValidationError\<rparr>, [])
   \<and> post_task (reference_engine\<lparr>store_up := False\<rparr>) id_a 1000 1000 []
     \<lparr>cb_text = Some (JStr ''Alpha''), cb_important = None\<rparr> =
   (\<lparr>status = 400, body = Exn_json StoreError\<rparr>, [])"
proof -
  have "post_task reference_engine id_a 1000 1000 []
     \<lparr>cb_text = Some (JNum 123), cb_important = None\<rparr> =
   (\<lparr>status = 400, body = Exn_json TypeError\<rparr>, [])"
    by code_simp
  moreover have "post_task reference_engine id_a 1000 1000 []
     \<lparr>cb_text = Some (JStr ''Alpha''), cb_important = Some (JStr ''banana'')\<rparr> =
   (\<lparr>status = 400, body = Exn_json ValidationError\<rparr>, [])"
    by code_simp
  moreover have "post_task (reference_engine\<lparr>store_up := False\<rparr>) id_a 1000 1000 []
     \<lparr>cb_text = Some (JStr ''Alpha''), cb_important = None\<rparr> =
   (\<lparr>status = 400, body = Exn_json StoreError\<rparr>, [])"
    by code_simp
  ultimately show ?thesis by (intro conjI)
qed

text \<open>
  C3, amended. POST /api/tasks answers 400 or 201. It answers 400 whenever the text is
  absent or trims to nothing, and on every 400 the collection is as before. It answers
  201 exactly when the text is a string that does not trim to nothing, \<open>important\<close> is
  absent or a value that casts, and the store accepts the document. On 201 the stored
  document is returned and appended: its text is the trimmed input, \<open>completed\<close> is
  false, and \<open>important\<close> is the cast input, false when absent.
\<close>

theorem post_task_create:
  assumes "post_task E nid t0 t1 db b = (r, db')"
  shows "(status r = 400 \<or> status r = 201)
       \<and> (status r = 400 \<longrightarrow> db' = db)
       \<and> ((cb_text b = None \<or> (\<exists>s. cb_text b = Some (JStr s) \<and> trim s = [])) \<longrightarrow> status r = 400)
       \<and> (status r = 201 \<longleftrightarrow>
            (\<exists>s. cb_text b = Some (JStr s) \<and> trim s \<noteq> [])
            \<and> castable (cb_important b) \<and> store_up E)
       \<and> (status r = 201 \<longrightarrow>
            (\<exists>s v saved. cb_text b = Some (JStr s)
               \<and> castBoolean (case cb_important b of None \<Rightarrow> JBool False | Some j \<Rightarrow> j) = Inr v
               \<and> body r = Task_json saved \<and> db' = db @ [saved]
               \<and> task_id saved = nid
               \<and> task_text saved = trim s
               \<and> completed saved = Some False
               \<and> important saved = v
               \<and> createdAt saved = t0 \<and> updatedAt saved = t1))"
proof (cases "\<exists>s. cb_text b = Some (JStr s)")
  case False
  then have "\<forall>s. cb_text b \<noteq> Some (JStr s)" by simp
  from post_task_not_string [OF this, of E nid t0 t1 db] assms
  obtain x where "r = \<lparr>status = 400, body = x\<rparr>" "db' = db"
    by auto
  with False show ?thesis by auto
next
  case True
  then obtain s where s: "cb_text b = Some (JStr s)" by blast
  note eq = post_task_string [OF s, of E nid t0 t1 db]
  show ?thesis
  proof (cases "trim s = []")
    case True
    with eq assms have "r = \<lparr>status = 400, body = Error_json ''Task text is required''\<rparr>" "db' = db"
      by simp_all
    with s True show ?thesis by auto
  next
    case nonblank: False
    show ?thesis
    proof (cases "castBoolean (case cb_important b of None \<Rightarrow> JBool False | Some v \<Rightarrow> v)")
      case (Inl e)
      with eq nonblank assms have "r = \<lparr>status = 400, body = Exn_json ValidationError\<rparr>" "db' = db"
        by simp_all
      moreover from Inl have "\<not> castable (cb_important b)"
        by (cases "cb_important b") (simp_all add: castable_def)
      ultimately show ?thesis using s nonblank by auto
    next
      case (Inr v)
      then have c: "castable (cb_important b)"
        by (cases "cb_important b") (simp_all add: castable_def)
      show ?thesis
      proof (cases "store_up E")
        case False
        with eq nonblank Inr assms have "r = \<lparr>status = 400, body = Exn_json StoreError\<rparr>" "db' = db"
          by simp_all
        with False s nonblank show ?thesis by auto
      next
        case True
        let ?saved = "\<lparr>task_id = nid, task_text = trim s, completed = Some False,
                        important = v, createdAt = t0, updatedAt = t1\<rparr>"
        from eq nonblank Inr True assms
        have r: "r = \<lparr>status = 201, body = Task_json ?saved\<rparr>" and d: "db' = db @ [?saved]"
          by (simp_all add: Let_def)
        have "\<exists>s v saved. cb_text b = Some (JStr s)
               \<and> castBoolean (case cb_important b of None \<Rightarrow> JBool False | Some j \<Rightarrow> j) = Inr v
               \<and> body r = Task_json saved \<and> db' = db @ [saved]
               \<and> task_id saved = nid
               \<and> task_text saved = trim s
               \<and> completed saved = Some False
               \<and> important saved = v
               \<and> createdAt saved = t0 \<and> updatedAt saved = t1"
          by (intro exI [of _ s] exI [of _ v] exI [of _ ?saved]) (simp add: s Inr r d)
        moreover have "status r = 201" using r by simp
        ultimately show ?thesis using s nonblank c True by auto
      qed
    qed
  qed
qed

text \<open>
  The text \<open>" buy milk "\<close> is stored as \<open>"buy milk"\<close>.
\<close>

theorem post_task_create_witness:
  "post_task reference_engine id_a 1000 1001 []
     \<lparr>cb_text = Some (JStr '' buy milk ''), cb_important = None\<rparr> =
   (\<lparr>status = 201,
     body = Task_json \<lparr>task_id = id_a, task_text = ''buy milk'', completed = Some False,
                        important = Some False, createdAt = 1000, updatedAt = 1001\<rparr>\<rparr>,
    [\<lparr>task_id = id_a, task_text = ''buy milk'', completed = Some False,
      important = Some False, createdAt = 1000, updatedAt = 1001\<rparr>])"
proof -
  let ?b = "\<lparr>cb_text = Some (JStr '' buy milk ''), cb_important = None\<rparr>"
  obtain r db' where run: "post_task reference_engine id_a 1000 1001 [] ?b = (r, db')"
    by (cases "post_task reference_engine id_a 1000 1001 [] ?b")
  note inst = post_task_create [OF run]
  have good: "(\<exists>s. cb_text ?b = Some (JStr s) \<and> trim s \<noteq> [])
            \<and> castable (cb_important ?b) \<and> store_up reference_engine"
    by (simp add: trim_buy_milk castable_def reference_engine_def)
  from inst have iff: "status r = 201 \<longleftrightarrow>
            (\<exists>s. cb_text ?b = Some (JStr s) \<and> trim s \<noteq> [])
            \<and> castable (cb_important ?b) \<and> store_up reference_engine"
    by (elim conjE)
  from iff good have st: "status r = 201"
    by (rule iffD2)
  from inst have "status r = 201 \<longrightarrow>
            (\<exists>s v saved. cb_text ?b = Some (JStr s)
               \<and> castBoolean (case cb_important ?b of None \<Rightarrow> JBool False | Some j \<Rightarrow> j) = Inr v
               \<and> body r = Task_json saved \<and> db' = [] @ [saved]
               \<and> task_id saved = id_a
               \<and> task_text saved = trim s
               \<and> completed saved = Some False
               \<and> important saved = v
               \<and> createdAt saved = 1000 \<and> updatedAt saved = 1001)"
    by (elim conjE)
  with st obtain s v saved where
    "cb_text ?b = Some (JStr s)"
    "castBoolean (case cb_important ?b of None \<Rightarrow> JBool False | Some j \<Rightarrow> j) = Inr v"
    "body r = Task_json saved" "db' = [] @ [saved]" "task_id saved = id_a"
    "task_text saved = trim s" "completed saved = Some False" "important saved = v"
    "createdAt saved = 1000" "updatedAt saved = 1001"
    by (elim impE exE conjE) (assumption, rule that)
  then have "saved = \<lparr>task_id = id_a, task_text = ''buy milk'', completed = Some False,
                        important = Some False, createdAt = 1000, updatedAt = 1001\<rparr>"
    and "body r = Task_json saved" and "db' = [saved]"
    by (auto simp: trim_buy_milk)
  with st have "r = \<lparr>status = 201,
     body = Task_json \<lparr>task_id = id_a, task_text = ''buy milk'', completed = Some False,
                        important = Some False, createdAt = 1000, updatedAt = 1001\<rparr>\<rparr>"
    and "db' = [\<lparr>task_id = id_a, task_text = ''buy milk'', completed = Some False,
      important = Some False, createdAt = 1000, updatedAt = 1001\<rparr>]"
    by simp_all
  with run show ?thesis by (simp only:)
qed




text \<open>
  C5. A successful PUT /api/tasks/:id rewrites one document in place, the first with the
  id: each of \<open>text\<close>, \<open>completed\<close>, \<open>important\<close> that the payload leaves out keeps
  its value, a text that is given is stored trimmed, a given \<open>completed\<close> or \<open>important\<close>
  is stored as cast, \<open>createdAt\<close> and the id are kept, and \<open>updatedAt\<close> becomes the
  current time, whatever the new values are. The response carries the document after
  the update.
\<close>

theorem put_task_success:
  assumes "put_task E now db rid b = (r, db')" and "status r = 200"
  shows "\<exists>oid i new.
           cast_object_id E rid = Some oid \<and> i < length db \<and> task_id (db ! i) = oid
         \<and> (\<forall>j<i. task_id (db ! j) \<noteq> oid)
         \<and> body r = Task_json new \<and> db' = db[i := new]
         \<and> task_id new = task_id (db ! i)
         \<and> createdAt new = createdAt (db ! i)
         \<and> updatedAt new = now
         \<and> (case ub_text b of
               None \<Rightarrow> task_text new = task_text (db ! i)
             | Some j \<Rightarrow> \<exists>s. j = JStr s \<and> task_text new = trim s)
         \<and> (case ub_completed b of
               None \<Rightarrow> completed new = completed (db ! i)
             | Some j \<Rightarrow> castBoolean j = Inr (completed new))
         \<and> (case ub_important b of
               None \<Rightarrow> important new = important (db ! i)
             | Some j \<Rightarrow> castBoolean j = Inr (important new))"
proof -
  from put_task_200 [OF assms] obtain ud cu oid new where
    ud: "build_update now b = Inr ud" and cu: "castUpdate ud = Inr cu"
    and oid: "cast_object_id E rid = Some oid"
    and upd: "update_first (\<lambda>t. task_id t = oid) (apply_update cu) db = Some (new, db')"
    and r: "body r = Task_json new"
    by blast
  from update_first_Some [OF upd] obtain i where i: "i < length db" "task_id (db ! i) = oid"
    "\<forall>j<i. task_id (db ! j) \<noteq> oid" "new = apply_update cu (db ! i)"
    "db' = db[i := new]" by blast
  note u = build_update_Inr [OF ud]
  note c = castUpdate_Inr [OF cu]
  have frame: "task_id new = task_id (db ! i)" "createdAt new = createdAt (db ! i)"
    unfolding i(4) by (simp_all add: apply_update_def)
  have time: "updatedAt new = now"
    unfolding i(4) using u c by (simp add: apply_update_def)
  have tx: "case ub_text b of
               None \<Rightarrow> task_text new = task_text (db ! i)
             | Some j \<Rightarrow> \<exists>s. j = JStr s \<and> task_text new = trim s"
  proof (cases "ub_text b")
    case None
    with u c show ?thesis
      unfolding i(4) by (simp add: apply_update_def)
  next
    case (Some j)
    with u obtain s where "j = JStr s" "ud_text ud = Some (trim s)"
      by auto
    with Some c show ?thesis
      unfolding i(4) by (simp add: apply_update_def trim_idem)
  qed
  have com: "case ub_completed b of
               None \<Rightarrow> completed new = completed (db ! i)
             | Some j \<Rightarrow> castBoolean j = Inr (completed new)"
  proof -
    from c have "cast_field (ud_completed ud) = Inr (cu_completed cu)" by simp
    from cast_field_Inr [OF this] u show ?thesis
      unfolding i(4) by (auto simp: apply_update_def split: option.splits)
  qed
  have imp: "case ub_important b of
               None \<Rightarrow> important new = important (db ! i)
             | Some j \<Rightarrow> castBoolean j = Inr (important new)"
  proof -
    from c have "cast_field (ud_important ud) = Inr (cu_important cu)" by simp
    from cast_field_Inr [OF this] u show ?thesis
      unfolding i(4) by (auto simp: apply_update_def split: option.splits)
  qed
  from oid i(1,2,3) r i(5) frame time tx com imp show ?thesis
    by blast
qed

text \<open>
  Setting \<open>completed\<close> to the value it already has still moves \<open>updatedAt\<close>.
\<close>

theorem put_task_success_witness:
  "put_task reference_engine 2000 [task_a, task_b] id_a
        \<lparr>ub_text = None, ub_completed = Some (JBool False), ub_important = None\<rparr> =
      (\<lparr>status = 200, body = Task_json (task_a\<lparr>updatedAt := 2000\<rparr>)\<rparr>,
       [task_a\<lparr>updatedAt := 2000\<rparr>, task_b])
   \<and> (\<exists>oid i new.
           cast_object_id reference_engine id_a = Some oid \<and> i < length [task_a, task_b]
         \<and> task_id ([task_a, task_b] ! i) = oid
         \<and> Task_json (task_a\<lparr>updatedAt := 2000\<rparr>) = Task_json new
         \<and> [task_a\<lparr>updatedAt := 2000\<rparr>, task_b] = [task_a, task_b][i := new]
         \<and> createdAt new = createdAt ([task_a, task_b] ! i)
         \<and> updatedAt new = 2000
         \<and> task_text new = task_text ([task_a, task_b] ! i)
         \<and> completed new = Some False
         \<and> important new = important ([task_a, task_b] ! i))"
proof -
  have run: "put_task reference_engine 2000 [task_a, task_b] id_a
        \<lparr>ub_text = None, ub_completed = Some (JBool False), ub_important = None\<rparr> =
      (\<lparr>status = 200, body = Task_json (task_a\<lparr>updatedAt := 2000\<rparr>)\<rparr>,
       [task_a\<lparr>updatedAt := 2000\<rparr>, task_b])"
    by code_simp
  have ok: "status \<lparr>status = 200, body = Task_json (task_a\<lparr>updatedAt := 2000\<rparr>)\<rparr> = 200"
    by simp
  from put_task_success [OF run ok] obtain oid i new where
    "cast_object_id reference_engine id_a = Some oid" "i < length [task_a, task_b]"
    "task_id ([task_a, task_b] ! i) = oid"
    "body \<lparr>status = 200, body = Task_json (task_a\<lparr>updatedAt := 2000\<rparr>)\<rparr> = Task_json new"
    "[task_a\<lparr>updatedAt := 2000\<rparr>, task_b] = [task_a, task_b][i := new]"
    "createdAt new = createdAt ([task_a, task_b] ! i)" "updatedAt new = 2000"
    and t: "case ub_text \<lparr>ub_text = None, ub_completed = Some (JBool False), ub_important = None\<rparr> of
               None \<Rightarrow> task_text new = task_text ([task_a, task_b] ! i)
             | Some j \<Rightarrow> \<exists>s. j = JStr s \<and> task_text new = trim s"
    and c: "case ub_completed \<lparr>ub_text = None, ub_completed = Some (JBool False), ub_important = None\<rparr> of
               None \<Rightarrow> completed new = completed ([task_a, task_b] ! i)
             | Some j \<Rightarrow> castBoolean j = Inr (completed new)"
    and m: "case ub_important \<lparr>ub_text = None, ub_completed = Some (JBool False), ub_important = None\<rparr> of
               None \<Rightarrow> important new = important ([task_a, task_b] ! i)
             | Some j \<Rightarrow> castBoolean j = Inr (important new)"
    by (elim exE conjE) (rule that)
  moreover from t have "task_text new = task_text ([task_a, task_b] ! i)" by simp
  moreover from c have "completed new = Some False" by simp
  moreover from m have "important new = important ([task_a, task_b] ! i)" by simp
  ultimately have "\<exists>oid i new.
           cast_object_id reference_engine id_a = Some oid \<and> i < length [task_a, task_b]
         \<and> task_id ([task_a, task_b] ! i) = oid
         \<and> Task_json (task_a\<lparr>updatedAt := 2000\<rparr>) = Task_json new
         \<and> [task_a\<lparr>updatedAt := 2000\<rparr>, task_b] = [task_a, task_b][i := new]
         \<and> createdAt new = createdAt ([task_a, task_b] ! i)
         \<and> updatedAt new = 2000
         \<and> task_text new = task_text ([task_a, task_b] ! i)
         \<and> completed new = Some False
         \<and> important new = important ([task_a, task_b] ! i)"
    by (intro exI [of _ oid] exI [of _ i] exI [of _ new]) (simp only: response.simps simp_thms)
  with run show ?thesis by (intro conjI)
qed



text \<open>
  C7, as specified, fails: the union of the results for \<open>completed\<close> and \<open>pending\<close> is
  not always the result for \<open>all\<close>. After a create and an update with
  \<open>completed: null\<close> the collection holds one document; the conditions
  \<open>completed: true\<close> and \<open>completed: false\<close> both miss it, and the filter \<open>all\<close> returns
  it.
\<close>

theorem null_completed_in_neither_filter:
  "post_task reference_engine id_a 1000 1000 []
     \<lparr>cb_text = Some (JStr ''Alpha''), cb_important = None\<rparr> =
   (\<lparr>status = 201, body = Task_json task_a\<rparr>, [task_a])
   \<and> put_task reference_engine 2000 [task_a] id_a
     \<lparr>ub_text = None, ub_completed = Some JNull, ub_important = None\<rparr> =
   (\<lparr>status = 200, body = Task_json task_n\<rparr>, [task_n])
   \<and> get_tasks reference_engine [task_n] \<lparr>q_filter = Some ''completed'', q_search = None\<rparr> =
       \<lparr>status = 200, body = Tasks_json []\<rparr>
   \<and> get_tasks reference_engine [task_n] \<lparr>q_filter = Some ''pending'', q_search = None\<rparr> =
       \<lparr>status = 200, body = Tasks_json []\<rparr>
   \<and> get_tasks reference_engine [task_n] \<lparr>q_filter = Some ''all'', q_search = None\<rparr> =
       \<lparr>status = 200, body = Tasks_json [task_n]\<rparr>"
proof -
  have "get_tasks reference_engine [task_n] \<lparr>q_filter = Some ''completed'', q_search = None\<rparr> =
       \<lparr>status = 200, body = Tasks_json []\<rparr>"
    by code_simp
  moreover have "get_tasks reference_engine [task_n] \<lparr>q_filter = Some ''pending'', q_search = None\<rparr> =
       \<lparr>status = 200, body = Tasks_json []\<rparr>"
    by code_simp
  moreover have "get_tasks reference_engine [task_n] \<lparr>q_filter = Some ''all'', q_search = None\<rparr> =
       \<lparr>status = 200, body = Tasks_json [task_n]\<rparr>"
    by code_simp
  ultimately show ?thesis
    using reach_task_a reach_task_n by (simp only: simp_thms)
qed

text \<open>
  C7, amended. For a fixed search value and collection, either the three queries with
  filter \<open>completed\<close>, \<open>pending\<close> and \<open>all\<close> are all answered 200, the first two result
  sets being disjoint and their union being the records of the third whose \<open>completed\<close>
  is not \<open>null\<close> (so the whole third result when it has no such record), or all three
  are answered 500 with the same error.
\<close>

theorem completed_pending_partition:
  "(\<exists>rc rp ra.
      get_tasks E db \<lparr>q_filter = Some ''completed'', q_search = s\<rparr> =
        \<lparr>status = 200, body = Tasks_json rc\<rparr>
    \<and> get_tasks E db \<lparr>q_filter = Some ''pending'', q_search = s\<rparr> =
        \<lparr>status = 200, body = Tasks_json rp\<rparr>
    \<and> get_tasks E db \<lparr>q_filter = Some ''all'', q_search = s\<rparr> =
        \<lparr>status = 200, body = Tasks_json ra\<rparr>
    \<and> set rc \<inter> set rp = {}
    \<and> set rc \<union> set rp = {t \<in> set ra. completed t \<noteq> None}
    \<and> ((\<forall>t\<in>set ra. completed t \<noteq> None) \<longrightarrow> set rc \<union> set rp = set ra))
   \<or> (\<exists>e.
      get_tasks E db \<lparr>q_filter = Some ''completed'', q_search = s\<rparr> =
        \<lparr>status = 500, body = Exn_json e\<rparr>
    \<and> get_tasks E db \<lparr>q_filter = Some ''pending'', q_search = s\<rparr> =
        \<lparr>status = 500, body = Exn_json e\<rparr>
    \<and> get_tasks E db \<lparr>q_filter = Some ''all'', q_search = s\<rparr> =
        \<lparr>status = 500, body = Exn_json e\<rparr>)"
proof -
  let ?qc = "\<lparr>q_filter = Some ''completed'', q_search = s\<rparr>"
  let ?qp = "\<lparr>q_filter = Some ''pending'', q_search = s\<rparr>"
  let ?qa = "\<lparr>q_filter = Some ''all'', q_search = s\<rparr>"
  let ?srt = "mongo_sort (By_createdAt, Desc)"
  have same_text: "mq_text (build_query ?qc) = mq_text (build_query ?qa)"
    "mq_text (build_query ?qp) = mq_text (build_query ?qa)"
    by (simp_all add: build_query_fields(1))
  have last: "set rc \<union> set rp = {t \<in> set ra. completed t \<noteq> None} \<Longrightarrow>
      (\<forall>t\<in>set ra. completed t \<noteq> None) \<longrightarrow> set rc \<union> set rp = set ra" for rc rp ra :: "task list"
    by blast
  show ?thesis
  proof (cases "store_up E")
    case False
    show ?thesis
      by (rule disjI2, rule exI, intro conjI)
         (rule get_tasks_down [OF False], rule get_tasks_down [OF False], rule get_tasks_down [OF False])
  next
    case up: True
    show ?thesis
    proof (cases "mq_text (build_query ?qa)")
      case None
      with same_text have nc: "mq_text (build_query ?qc) = None" and np: "mq_text (build_query ?qp) = None"
        by simp_all
      have rc: "get_tasks E db ?qc =
          \<lparr>status = 200, body = Tasks_json (?srt (filter (\<lambda>t. completed t = Some True \<and> True) db))\<rparr>"
        unfolding get_tasks_unconstrained [OF up nc] by (simp add: build_query_fields(2,3) field_ok_def)
      have rp: "get_tasks E db ?qp =
          \<lparr>status = 200, body = Tasks_json (?srt (filter (\<lambda>t. completed t = Some False \<and> True) db))\<rparr>"
        unfolding get_tasks_unconstrained [OF up np] by (simp add: build_query_fields(2,3) field_ok_def)
      have ra: "get_tasks E db ?qa =
          \<lparr>status = 200, body = Tasks_json (?srt (filter (\<lambda>t. True) db))\<rparr>"
        unfolding get_tasks_unconstrained [OF up None] by (simp add: build_query_fields(2,3) field_ok_def)
      show ?thesis
        by (rule disjI1, rule exI, rule exI, rule exI, intro conjI)
           (rule rc, rule rp, rule ra, rule partition_sets(1), rule partition_sets(2),
            rule last, rule partition_sets(2))
    next
      case (Some pat)
      with same_text have sc: "mq_text (build_query ?qc) = Some pat" and sp: "mq_text (build_query ?qp) = Some pat"
        by simp_all
      note sa = \<open>mq_text (build_query ?qa) = Some pat\<close>
      show ?thesis
      proof (cases "regex_i E pat")
        case None
        show ?thesis
          by (rule disjI2, rule exI, intro conjI)
             (rule get_tasks_rejected [OF up sc None], rule get_tasks_rejected [OF up sp None],
              rule get_tasks_rejected [OF up sa None])
      next
        case (Some m)
        have rc: "get_tasks E db ?qc =
            \<lparr>status = 200, body = Tasks_json (?srt
               (filter (\<lambda>t. completed t = Some True \<and> m (task_text t)) db))\<rparr>"
          unfolding get_tasks_matched [OF up sc Some] by (simp add: build_query_fields(2,3) field_ok_def)
        have rp: "get_tasks E db ?qp =
            \<lparr>status = 200, body = Tasks_json (?srt
               (filter (\<lambda>t. completed t = Some False \<and> m (task_text t)) db))\<rparr>"
          unfolding get_tasks_matched [OF up sp Some] by (simp add: build_query_fields(2,3) field_ok_def)
        have ra: "get_tasks E db ?qa =
            \<lparr>status = 200, body = Tasks_json (?srt (filter (\<lambda>t. m (task_text t)) db))\<rparr>"
          unfolding get_tasks_matched [OF up sa Some] by (simp add: build_query_fields(2,3) field_ok_def)
        show ?thesis
          by (rule disjI1, rule exI, rule exI, rule exI, intro conjI)
             (rule rc, rule rp, rule ra, rule partition_sets(1), rule partition_sets(2),
              rule last, rule partition_sets(2))
      qed
    qed
  qed
qed

theorem completed_pending_partition_witness:
  "get_tasks reference_engine [task_n, task_b, task_c] \<lparr>q_filter = Some ''completed'', q_search = Some ''a''\<rparr> =
     \<lparr>status = 200, body = Tasks_json [task_b]\<rparr>
   \<and> get_tasks reference_engine [task_n, task_b, task_c] \<lparr>q_filter = Some ''pending'', q_search = Some ''a''\<rparr> =
     \<lparr>status = 200, body = Tasks_json [task_c]\<rparr>
   \<and> get_tasks reference_engine [task_n, task_b, task_c] \<lparr>q_filter = Some ''all'', q_search = Some ''a''\<rparr> =
     \<lparr>status = 200, body = Tasks_json [task_c, task_n, task_b]\<rparr>
   \<and> set [task_b] \<inter> set [task_c] = {}
   \<and> set [task_b] \<union> set [task_c] = {t \<in> set [task_c, task_n, task_b]. completed t \<noteq> None}"
proof -
  let ?db = "[task_n, task_b, task_c]"
  have rc: "get_tasks reference_engine ?db \<lparr>q_filter = Some ''completed'', q_search = Some ''a''\<rparr> =
     \<lparr>status = 200, body = Tasks_json [task_b]\<rparr>"
    by code_simp
  have rp: "get_tasks reference_engine ?db \<lparr>q_filter = Some ''pending'', q_search = Some ''a''\<rparr> =
     \<lparr>status = 200, body = Tasks_json [task_c]\<rparr>"
    by code_simp
  have ra: "get_tasks reference_engine ?db \<lparr>q_filter = Some ''all'', q_search = Some ''a''\<rparr> =
     \<lparr>status = 200, body = Tasks_json [task_c, task_n, task_b]\<rparr>"
    by code_simp
  note inst = completed_pending_partition [of reference_engine ?db "Some ''a''"]
  have sets: "set [task_b] \<inter> set [task_c] = {}
      \<and> set [task_b] \<union> set [task_c] = {t \<in> set [task_c, task_n, task_b]. completed t \<noteq> None}"
    using inst
  proof (rule disjE)
    assume "\<exists>xc xp xa.
       get_tasks reference_engine ?db \<lparr>q_filter = Some ''completed'', q_search = Some ''a''\<rparr> =
         \<lparr>status = 200, body = Tasks_json xc\<rparr>
     \<and> get_tasks reference_engine ?db \<lparr>q_filter = Some ''pending'', q_search = Some ''a''\<rparr> =
         \<lparr>status = 200, body = Tasks_json xp\<rparr>
     \<and> get_tasks reference_engine ?db \<lparr>q_filter = Some ''all'', q_search = Some ''a''\<rparr> =
         \<lparr>status = 200, body = Tasks_json xa\<rparr>
     \<and> set xc \<inter> set xp = {}
     \<and> set xc \<union> set xp = {t \<in> set xa. completed t \<noteq> None}
     \<and> ((\<forall>t\<in>set xa. completed t \<noteq> None) \<longrightarrow> set xc \<union> set xp = set xa)"
    then obtain xc xp xa where
      ec: "get_tasks reference_engine ?db \<lparr>q_filter = Some ''completed'', q_search = Some ''a''\<rparr> =
         \<lparr>status = 200, body = Tasks_json xc\<rparr>"
      and ep: "get_tasks reference_engine ?db \<lparr>q_filter = Some ''pending'', q_search = Some ''a''\<rparr> =
         \<lparr>status = 200, body = Tasks_json xp\<rparr>"
      and ea: "get_tasks reference_engine ?db \<lparr>q_filter = Some ''all'', q_search = Some ''a''\<rparr> =
         \<lparr>status = 200, body = Tasks_json xa\<rparr>"
      and s: "set xc \<inter> set xp = {}" "set xc \<union> set xp = {t \<in> set xa. completed t \<noteq> None}"
      by (elim exE conjE) (rule that)
    from ec ep ea have "xc = [task_b]" "xp = [task_c]" "xa = [task_c, task_n, task_b]"
      unfolding rc rp ra by simp_all
    with s show ?thesis by (simp only:)
  next
    assume "\<exists>e. get_tasks reference_engine ?db \<lparr>q_filter = Some ''completed'', q_search = Some ''a''\<rparr> =
              \<lparr>status = 500, body = Exn_json e\<rparr>
          \<and> get_tasks reference_engine ?db \<lparr>q_filter = Some ''pending'', q_search = Some ''a''\<rparr> =
              \<lparr>status = 500, body = Exn_json e\<rparr>
          \<and> get_tasks reference_engine ?db \<lparr>q_filter = Some ''all'', q_search = Some ''a''\<rparr> =
              \<lparr>status = 500, body = Exn_json e\<rparr>"
    then obtain e where "get_tasks reference_engine ?db \<lparr>q_filter = Some ''completed'', q_search = Some ''a''\<rparr> =
              \<lparr>status = 500, body = Exn_json e\<rparr>"
      by (elim exE conjE) (rule that)
    then have "\<lparr>status = 200, body = Tasks_json [task_b]\<rparr> = \<lparr>status = 500, body = Exn_json e\<rparr>"
      unfolding rc .
    then show ?thesis by simp
  qed
  show ?thesis
    by (rule conjI [OF rc conjI [OF rp conjI [OF ra sets]]])
qed

text \<open>
  C8. When the service answers an update with success and the client asked with the id
  as the service writes it (as every id in the mirror is), \<open>updateTask\<close> leaves the
  mirror with the same length and order: each position holding a record with the id of
  the returned record now holds the returned record, every other position is as before,
  no other part of the client state changes, and \<open>fetchStats\<close> is called.
\<close>

theorem updateTask_reconciles:
  assumes "put_task E now db rid b = (r, db')" and "ok (status r)"
    and "cast_object_id E rid = Some rid"
  shows "\<exists>u c'. body r = Task_json u
           \<and> updateTask rid (deliver r) c = (c', [Call_fetchStats])
           \<and> c' = c\<lparr>tasks := tasks c'\<rparr>
           \<and> length (tasks c') = length (tasks c)
           \<and> (\<forall>i<length (tasks c).
                 tasks c' ! i = (if task_id (tasks c ! i) = task_id u then u else tasks c ! i))"
proof -
  from put_task_ok_returns_id [OF assms(1,2)] assms(3) obtain u where
    u: "body r = Task_json u" "task_id u = rid"
    by auto
  let ?c' = "c\<lparr>tasks := map (\<lambda>t. if task_id t = rid then u else t) (tasks c)\<rparr>"
  have run: "updateTask rid (deliver r) c = (?c', [Call_fetchStats])"
    using assms(2) u(1) by (simp add: updateTask_def deliver_def as_task_def)
  have "?c' = c\<lparr>tasks := tasks ?c'\<rparr>" "length (tasks ?c') = length (tasks c)"
    "\<forall>i<length (tasks c).
        tasks ?c' ! i = (if task_id (tasks c ! i) = task_id u then u else tasks c ! i)"
    using u(2) by simp_all
  with u(1) run show ?thesis by blast
qed

theorem updateTask_reconciles_witness:
  "put_task reference_engine 2000 [task_a, task_b] id_a
      \<lparr>ub_text = None, ub_completed = Some (JBool True), ub_important = None\<rparr> =
     (\<lparr>status = 200, body = Task_json (task_a\<lparr>completed := Some True, updatedAt := 2000\<rparr>)\<rparr>,
      [task_a\<lparr>completed := Some True, updatedAt := 2000\<rparr>, task_b])
   \<and> updateTask id_a
        (deliver \<lparr>status = 200, body = Task_json (task_a\<lparr>completed := Some True, updatedAt := 2000\<rparr>)\<rparr>)
        client0 =
       (client0\<lparr>tasks := [task_a\<lparr>completed := Some True, updatedAt := 2000\<rparr>, task_b]\<rparr>,
        [Call_fetchStats])
   \<and> (\<exists>u c'. Task_json (task_a\<lparr>completed := Some True, updatedAt := 2000\<rparr>) = Task_json u
         \<and> updateTask id_a
              (deliver \<lparr>status = 200, body = Task_json (task_a\<lparr>completed := Some True, updatedAt := 2000\<rparr>)\<rparr>)
              client0 = (c', [Call_fetchStats])
         \<and> length (tasks c') = length (tasks client0)
         \<and> (\<forall>i<length (tasks client0).
               tasks c' ! i =
                 (if task_id (tasks client0 ! i) = task_id u then u else tasks client0 ! i)))"
proof -
  let ?u = "task_a\<lparr>completed := Some True, updatedAt := 2000\<rparr>"
  let ?r = "\<lparr>status = 200, body = Task_json ?u\<rparr>"
  have run: "put_task reference_engine 2000 [task_a, task_b] id_a
      \<lparr>ub_text = None, ub_completed = Some (JBool True), ub_important = None\<rparr> = (?r, [?u, task_b])"
    by code_simp
  have okr: "ok (status ?r)"
    by (simp add: ok_def)
  have cast: "cast_object_id reference_engine id_a = Some id_a"
    by (simp add: reference_engine_def hex24_a)
  have upd: "updateTask id_a (deliver ?r) client0 = (client0\<lparr>tasks := [?u, task_b]\<rparr>, [Call_fetchStats])"
    by code_simp
  from updateTask_reconciles [OF run okr cast, of client0]
  have "\<exists>u c'. Task_json ?u = Task_json u
         \<and> updateTask id_a (deliver ?r) client0 = (c', [Call_fetchStats])
         \<and> length (tasks c') = length (tasks client0)
         \<and> (\<forall>i<length (tasks client0).
               tasks c' ! i =
                 (if task_id (tasks client0 ! i) = task_id u then u else tasks client0 ! i))"
    by (elim exE conjE, intro exI conjI) (simp only: response.simps, assumption+)
  with run upd show ?thesis by (intro conjI)
qed

text \<open>
  C9. A request that fails, by a network error or a response that is not \<open>ok\<close>, leaves
  the mirror as it was: \<open>fetchTasks\<close> only sets the error message and clears
  \<open>loading\<close>; \<open>createTask\<close>, \<open>updateTask\<close> and \<open>deleteTask\<close> only set their error
  message, and call nothing further.
\<close>

theorem failure_keeps_mirror:
  "(failed rf \<longrightarrow>
      fetchTasks rf c =
        c\<lparr>loading := False, error := Some ''Failed to load tasks. Please try again.''\<rparr>
      \<and> tasks (fetchTasks rf c) = tasks c)
 \<and> (failed rc \<longrightarrow>
      createTask rc c = (c\<lparr>error := Some ''Failed to create task. Please try again.''\<rparr>, [])
      \<and> tasks (fst (createTask rc c)) = tasks c)
 \<and> (failed ru \<longrightarrow>
      updateTask rid ru c = (c\<lparr>error := Some ''Failed to update task. Please try again.''\<rparr>, [])
      \<and> tasks (fst (updateTask rid ru c)) = tasks c)
 \<and> (failed rd \<longrightarrow>
      deleteTask rid rd c = (c\<lparr>error := Some ''Failed to delete task. Please try again.''\<rparr>, [])
      \<and> tasks (fst (deleteTask rid rd c)) = tasks c)"
proof (intro conjI impI)
  assume "failed rf"
  then show f: "fetchTasks rf c =
        c\<lparr>loading := False, error := Some ''Failed to load tasks. Please try again.''\<rparr>"
    by (cases rf) (simp_all add: failed_def fetchTasks_def Let_def)
  then show "tasks (fetchTasks rf c) = tasks c" by simp
next
  assume "failed rc"
  then show f: "createTask rc c = (c\<lparr>error := Some ''Failed to create task. Please try again.''\<rparr>, [])"
    by (cases rc) (simp_all add: failed_def createTask_def Let_def)
  then show "tasks (fst (createTask rc c)) = tasks c" by simp
next
  assume "failed ru"
  then show f: "updateTask rid ru c = (c\<lparr>error := Some ''Failed to update task. Please try again.''\<rparr>, [])"
    by (cases ru) (simp_all add: failed_def updateTask_def Let_def)
  then show "tasks (fst (updateTask rid ru c)) = tasks c" by simp
next
  assume "failed rd"
  then show f: "deleteTask rid rd c = (c\<lparr>error := Some ''Failed to delete task. Please try again.''\<rparr>, [])"
    by (cases rd) (simp_all add: failed_def deleteTask_def Let_def)
  then show "tasks (fst (deleteTask rid rd c)) = tasks c" by simp
qed

theorem failure_keeps_mirror_witness:
  "(fetchTasks Network_error client0 =
      client0\<lparr>loading := False, error := Some ''Failed to load tasks. Please try again.''\<rparr>
    \<and> tasks (fetchTasks Network_error client0) = [task_a, task_b])
 \<and> (createTask (Http 400 None) client0 =
      (client0\<lparr>error := Some ''Failed to create task. Please try again.''\<rparr>, [])
    \<and> tasks (fst (createTask (Http 400 None) client0)) = [task_a, task_b])
 \<and> (updateTask id_a (Http 404 None) client0 =
      (client0\<lparr>error := Some ''Failed to update task. Please try again.''\<rparr>, [])
    \<and> tasks (fst (updateTask id_a (Http 404 None) client0)) = [task_a, task_b])
 \<and> (deleteTask id_a (Http 500 None) client0 =
      (client0\<lparr>error := Some ''Failed to delete task. Please try again.''\<rparr>, [])
    \<and> tasks (fst (deleteTask id_a (Http 500 None) client0)) = [task_a, task_b])"
proof -
  have f: "failed (Network_error :: task list reply)" "failed (Http 400 None :: task reply)"
    "failed (Http 404 None :: task reply)" "failed (Http 500 None :: body reply)"
    by (simp_all add: failed_def ok_def)
  have t: "tasks client0 = [task_a, task_b]"
    by (simp add: client0_def)
  from failure_keeps_mirror [of "Network_error" client0 "Http 400 None" "Http 404 None" id_a "Http 500 None"] f
  show ?thesis
    unfolding t by (elim conjE impE) (assumption+, intro conjI, assumption+)
qed

text \<open>
  C10. A filter that is none of \<open>completed\<close>, \<open>pending\<close>, \<open>important\<close> (absent, empty,
  or any other string) puts no constraint on \<open>completed\<close> or \<open>important\<close>, and the
  answer is that of the filter \<open>all\<close> and of the absent filter, for the same search.
\<close>

theorem other_filter_is_all:
  assumes "q_filter q \<notin> {Some ''completed'', Some ''pending'', Some ''important''}"
  shows "mq_completed (build_query q) = None \<and> mq_important (build_query q) = None
       \<and> get_tasks E db q = get_tasks E db \<lparr>q_filter = Some ''all'', q_search = q_search q\<rparr>
       \<and> get_tasks E db q = get_tasks E db \<lparr>q_filter = None, q_search = q_search q\<rparr>"
proof -
  have same: "build_query \<lparr>q_filter = Some ''all'', q_search = q_search q\<rparr> = build_query q"
    "build_query \<lparr>q_filter = None, q_search = q_search q\<rparr> = build_query q"
    using assms by (auto simp: build_query_def Let_def split: option.splits)
  have "mq_completed (build_query q) = None \<and> mq_important (build_query q) = None"
    using assms by (auto simp: build_query_def Let_def split: option.splits)
  with same show ?thesis
    by (simp add: get_tasks_def)
qed

theorem other_filter_is_all_witness:
  "get_tasks reference_engine [task_a, task_b, task_c] \<lparr>q_filter = Some ''banana'', q_search = None\<rparr> =
     get_tasks reference_engine [task_a, task_b, task_c] \<lparr>q_filter = Some ''all'', q_search = None\<rparr>
   \<and> get_tasks reference_engine [task_a, task_b, task_c] \<lparr>q_filter = Some ''banana'', q_search = None\<rparr> =
     \<lparr>status = 200, body = Tasks_json [task_c, task_a, task_b]\<rparr>
   \<and> get_tasks reference_engine [task_a, task_b, task_c] \<lparr>q_filter = Some [], q_search = None\<rparr> =
     get_tasks reference_engine [task_a, task_b, task_c] \<lparr>q_filter = Some ''all'', q_search = None\<rparr>"
proof -
  let ?banana = "\<lparr>q_filter = Some ''banana'', q_search = None\<rparr>"
  let ?empty = "\<lparr>q_filter = Some [], q_search = None\<rparr>"
  have h1: "q_filter ?banana \<notin> {Some ''completed'', Some ''pending'', Some ''important''}"
    by simp
  have h2: "q_filter ?empty \<notin> {Some ''completed'', Some ''pending'', Some ''important''}"
    by simp
  have s1: "q_search ?banana = None" and s2: "q_search ?empty = None"
    by simp_all
  have run: "get_tasks reference_engine [task_a, task_b, task_c] ?banana =
     \<lparr>status = 200, body = Tasks_json [task_c, task_a, task_b]\<rparr>"
    by code_simp
  from other_filter_is_all [OF h1, of reference_engine "[task_a, task_b, task_c]"]
  have e1: "get_tasks reference_engine [task_a, task_b, task_c] ?banana =
     get_tasks reference_engine [task_a, task_b, task_c] \<lparr>q_filter = Some ''all'', q_search = None\<rparr>"
    unfolding s1 by (elim conjE)
  from other_filter_is_all [OF h2, of reference_engine "[task_a, task_b, task_c]"]
  have e2: "get_tasks reference_engine [task_a, task_b, task_c] ?empty =
     get_tasks reference_engine [task_a, task_b, task_c] \<lparr>q_filter = Some ''all'', q_search = None\<rparr>"
    unfolding s2 by (elim conjE)
  show ?thesis
    by (intro conjI) (rule e1, rule run, rule e2)
qed

end
